theory Spec2Isabelle
  imports Main "HOL-Library.Sublist"
begin

section \<open>Clip download from the MusicCaps notebook\<close>

text \<open>
  The development embeds the two functions of \<^verbatim>\<open>data/download_musiccaps.ipynb\<close>
  that carry logic: \<^verbatim>\<open>download_clip\<close> (window adjustment, command construction,
  retry loop, existence check) and the per-row driver \<^verbatim>\<open>process\<close>.
\<close>

subsection \<open>Python strings\<close>

text \<open>
  A Python \<^verbatim>\<open>str\<close> is a \<open>string\<close>; a \<open>char\<close> is read as the code point of the
  same number, so the model covers the strings whose code points are below 256.
  \<open>isspace\<close> lists the code points below 256 that \<^verbatim>\<open>str.strip()\<close> removes: tab,
  line feed, vertical tab, form feed, carriage return, the four separators
  0x1C..0x1F, the space, NEL (0x85) and the no-break space (0xA0).
\<close>

definition isspace :: "char \<Rightarrow> bool" where
  "isspace c =
     (let n = (of_char c :: nat)
      in (9 \<le> n \<and> n \<le> 13) \<or> (28 \<le> n \<and> n \<le> 32) \<or> n = 133 \<or> n = 160)"

definition lstrip :: "string \<Rightarrow> string" where
  "lstrip s = dropWhile isspace s"

definition rstrip :: "string \<Rightarrow> string" where
  "rstrip s = rev (dropWhile isspace (rev s))"

definition strip :: "string \<Rightarrow> string" where
  "strip s = lstrip (rstrip s)"

text \<open>\<^verbatim>\<open>str(n)\<close> of an integer: its decimal digits, with a minus sign below zero.\<close>

definition digit :: "nat \<Rightarrow> char" where
  "digit d = ''0123456789'' ! d"

function str_nat :: "nat \<Rightarrow> string" where
  "str_nat n = (if n < 10 then [digit n] else str_nat (n div 10) @ [digit (n mod 10)])"
  by pat_completeness auto
termination
  by (relation "measure (\<lambda>n. n)") auto

declare str_nat.simps [simp del]

definition str_int :: "int \<Rightarrow> string" where
  "str_int i = (if i < 0 then CHR ''-'' # str_nat (nat (- i)) else str_nat (nat i))"

subsection \<open>The window adjustment\<close>

text \<open>
  Lines 63 to 67 of the notebook:
  \<^verbatim>\<open>
    if int(start_time) > 15:
        start_time = str(int(start_time) - 15)
        end_time = str(int(end_time) + 15)
    else:
        end_time = str(int(end_time) + 30)
  \<close>
  The times of a dataset row are integers. The pair returned holds the two values
  that the command string then formats; in the second branch \<open>start_time\<close> is the
  argument itself.
\<close>

definition adjust_window :: "int \<Rightarrow> int \<Rightarrow> int \<times> int" where
  "adjust_window start_time end_time =
     (if start_time > 15 then (start_time - 15, end_time + 15)
      else (start_time, end_time + 30))"

subsection \<open>The command string\<close>

text \<open>
  Lines 69 to 71: an f-string between triple quotes, whose first line break and
  indentation and whose last line break and indentation are taken off by
  \<^verbatim>\<open>.strip()\<close>. The two times are the adjusted ones.
\<close>

definition default_url_base :: string where
  "default_url_base = ''https://www.youtube.com/watch?v=''"

definition command_head :: "string \<Rightarrow> int \<Rightarrow> int \<Rightarrow> string" where
  "command_head output_filename start_time end_time =
     ''yt-dlp --quiet --no-warnings -x --audio-format wav -f bestaudio -o \"''
     @ output_filename @ ''\" --download-sections \"*'' @ str_int start_time @ ''-''
     @ str_int end_time @ ''\" ''"

definition build_command :: "string \<Rightarrow> string \<Rightarrow> int \<Rightarrow> int \<Rightarrow> string \<Rightarrow> string" where
  "build_command video_identifier output_filename start_time end_time url_base =
     strip (''\<newline>        '' @ command_head output_filename start_time end_time
            @ url_base @ video_identifier @ ''\<newline>    '')"

subsection \<open>The operating system\<close>

text \<open>
  \<^verbatim>\<open>subprocess.check_output(command, shell=True, stderr=subprocess.STDOUT)\<close> either
  returns the captured output or raises \<^verbatim>\<open>CalledProcessError\<close>, whose \<^verbatim>\<open>output\<close>
  field is the captured output. What the external tool does is not part of the
  notebook: it is a parameter, a function of the command and of the state \<open>'w\<close> of
  the world (file system, network, clock), which it may change.
  \<^verbatim>\<open>os.path.exists\<close> reads that state.
\<close>

datatype proc_result =
  is_Completed: Completed (captured: string)
  | CalledProcessError (captured: string)

record 'w system =
  subprocess :: "string \<Rightarrow> 'w \<Rightarrow> proc_result \<times> 'w"
  os_path_exists :: "string \<Rightarrow> 'w \<Rightarrow> bool"

text \<open>
  The state a run threads: the world, and the log of the command strings handed
  to the shell so far, one entry for each invocation.
\<close>

record 'w state =
  world :: 'w
  shell_log :: "string list"

definition check_output :: "'w system \<Rightarrow> string \<Rightarrow> 'w state \<Rightarrow> proc_result \<times> 'w state" where
  "check_output sys command s =
     (case subprocess sys command (world s) of
        (r, w') \<Rightarrow> (r, s\<lparr>world := w', shell_log := shell_log s @ [command]\<rparr>))"

subsection \<open>The retry loop\<close>

text \<open>
  Lines 73 to 83:
  \<^verbatim>\<open>
    attempts = 0
    while True:
        try:
            output = subprocess.check_output(...)
        except subprocess.CalledProcessError as err:
            attempts += 1
            if attempts == num_attempts:
                return status, err.output
        else:
            break
  \<close>
  The loop leaves either by \<^verbatim>\<open>break\<close> or by \<^verbatim>\<open>return\<close>; it may also run forever,
  which is the value \<open>None\<close>.
\<close>

datatype loop_exit = Break string | Return string

partial_function (option) retry_loop ::
  "'w system \<Rightarrow> string \<Rightarrow> int \<Rightarrow> int \<Rightarrow> 'w state \<Rightarrow> (loop_exit \<times> 'w state) option" where
  "retry_loop sys command num_attempts attempts s =
     (case check_output sys command s of
        (CalledProcessError out, s') \<Rightarrow>
          (if attempts + 1 = num_attempts then Some (Return out, s')
           else retry_loop sys command num_attempts (attempts + 1) s')
      | (Completed out, s') \<Rightarrow> Some (Break out, s'))"

declare retry_loop.simps [code]

subsection \<open>download_clip\<close>

text \<open>
  The message returned is the bytes of \<^verbatim>\<open>err.output\<close> or the text
  \<^verbatim>\<open>'Downloaded'\<close>. The parameter \<^verbatim>\<open>tmp_dir\<close> of the source is never read and is
  left out.
\<close>

datatype message = Bytes string | Str string

definition download_clip ::
  "'w system \<Rightarrow> string \<Rightarrow> string \<Rightarrow> int \<Rightarrow> int \<Rightarrow> int \<Rightarrow> string \<Rightarrow> 'w state
     \<Rightarrow> ((bool \<times> message) \<times> 'w state) option" where
  "download_clip sys video_identifier output_filename start_time end_time num_attempts url_base s =
     (case adjust_window start_time end_time of
        (start_time', end_time') \<Rightarrow>
          (case retry_loop sys
                  (build_command video_identifier output_filename start_time' end_time' url_base)
                  num_attempts 0 s of
             None \<Rightarrow> None
           | Some (Return out, s') \<Rightarrow> Some ((False, Bytes out), s')
           | Some (Break out, s') \<Rightarrow>
               Some ((os_path_exists sys output_filename (world s'), Str ''Downloaded''), s')))"

subsection \<open>The per-row driver\<close>

text \<open>
  Lines 115 to 129. A row has the columns \<^verbatim>\<open>ytid\<close>, \<^verbatim>\<open>start_s\<close> and \<^verbatim>\<open>end_s\<close>;
  the driver adds \<^verbatim>\<open>audio\<close> and \<^verbatim>\<open>download_status\<close>, absent (\<open>None\<close>) before.
  \<open>joinpath name\<close> stands for \<^verbatim>\<open>str(data_dir / name)\<close> of \<^verbatim>\<open>pathlib\<close>.
  \<^verbatim>\<open>download_clip\<close> is called with its defaults: five attempts and the YouTube
  URL base.
\<close>

record example =
  ytid :: string
  start_s :: int
  end_s :: int
  audio :: "string option"
  download_status :: "bool option"

definition process ::
  "'w system \<Rightarrow> (string \<Rightarrow> string) \<Rightarrow> example \<Rightarrow> 'w state \<Rightarrow> (example \<times> 'w state) option" where
  "process sys joinpath ex s =
     (let outfile_path = joinpath (ytid ex @ ''.wav'')
      in if \<not> os_path_exists sys outfile_path (world s)
         then (case download_clip sys (ytid ex) outfile_path (start_s ex) (end_s ex) 5
                      default_url_base s of
                 None \<Rightarrow> None
               | Some ((status, log), s') \<Rightarrow>
                   Some (ex\<lparr>audio := Some outfile_path, download_status := Some status\<rparr>, s'))
         else Some (ex\<lparr>audio := Some outfile_path, download_status := Some True\<rparr>, s))"

subsection \<open>Runs of the external tool\<close>

text \<open>
  To speak of the k-th attempt: \<open>world_after sys command n w\<close> is the world after
  \<open>n\<close> invocations of \<open>command\<close> in a row from the world \<open>w\<close>, \<open>outcome sys command n w\<close>
  is what the next invocation, the one numbered \<open>n + 1\<close>, returns there, and
  \<open>state_after\<close> is the state with the \<open>n\<close> invocations logged.
\<close>

definition world_after :: "'w system \<Rightarrow> string \<Rightarrow> nat \<Rightarrow> 'w \<Rightarrow> 'w" where
  "world_after sys command n w = ((\<lambda>v. snd (subprocess sys command v)) ^^ n) w"

definition outcome :: "'w system \<Rightarrow> string \<Rightarrow> nat \<Rightarrow> 'w \<Rightarrow> proc_result" where
  "outcome sys command n w = fst (subprocess sys command (world_after sys command n w))"

definition state_after :: "'w system \<Rightarrow> string \<Rightarrow> nat \<Rightarrow> 'w state \<Rightarrow> 'w state" where
  "state_after sys command n s =
     s\<lparr>world := world_after sys command n (world s),
       shell_log := shell_log s @ replicate n command\<rparr>"

text \<open>The number of invocations between two states of a run.\<close>

definition invocations :: "'w state \<Rightarrow> 'w state \<Rightarrow> nat" where
  "invocations s s' = length (shell_log s') - length (shell_log s)"

text \<open>The command that \<open>download_clip\<close> runs for a request.\<close>

definition clip_command :: "string \<Rightarrow> string \<Rightarrow> int \<Rightarrow> int \<Rightarrow> string \<Rightarrow> string" where
  "clip_command video_identifier output_filename start_time end_time url_base =
     build_command video_identifier output_filename
       (fst (adjust_window start_time end_time)) (snd (adjust_window start_time end_time)) url_base"

subsection \<open>Machines for the scenarios\<close>

text \<open>
  A machine to run the model on: its world is the number of invocations made so
  far and the list of the files present. The tool fails on its first \<open>fails\<close>
  invocations, printing the number of the attempt, and succeeds from then on,
  printing \<open>printed\<close> and writing the files \<open>written\<close>.
\<close>

definition scripted :: "nat \<Rightarrow> string \<Rightarrow> string list \<Rightarrow> (nat \<times> string list) system" where
  "scripted fails printed written =
     \<lparr>subprocess = (\<lambda>command (n, files).
        if n < fails
        then (CalledProcessError (''ERROR: attempt '' @ str_nat (Suc n)), (Suc n, files))
        else (Completed printed, (Suc n, written @ files))),
      os_path_exists = (\<lambda>path (n, files). path \<in> set files)\<rparr>"

definition boot :: "string list \<Rightarrow> (nat \<times> string list) state" where
  "boot files = \<lparr>world = (0, files), shell_log = []\<rparr>"

definition music_data :: "string \<Rightarrow> string" where
  "music_data name = ''music_data/'' @ name"

section \<open>Properties\<close>

subsection \<open>The retry loop, attempt by attempt\<close>

lemma world_after_0: "world_after sys c 0 w = w"
  by (simp add: world_after_def)

lemma world_after_Suc:
  "world_after sys c (Suc n) w = world_after sys c n (snd (subprocess sys c w))"
  unfolding world_after_def by (simp only: funpow_Suc_right o_apply)

lemma outcome_Suc:
  "outcome sys c (Suc n) w = outcome sys c n (snd (subprocess sys c w))"
  by (simp add: outcome_def world_after_Suc)

lemma state_after_0: "state_after sys c 0 s = s"
  by (simp add: state_after_def world_after_0)

lemma check_output_eq:
  "check_output sys c s = (outcome sys c 0 (world s), state_after sys c (Suc 0) s)"
  by (simp add: check_output_def outcome_def state_after_def world_after_def split: prod.splits)

lemma state_after_Suc:
  "state_after sys c (Suc n) s = state_after sys c n (state_after sys c (Suc 0) s)"
  by (simp add: state_after_def world_after_Suc world_after_0 replicate_app_Cons_same)

lemma world_state_after: "world (state_after sys c n s) = world_after sys c n (world s)"
  by (simp add: state_after_def)

lemma shell_log_state_after: "shell_log (state_after sys c n s) = shell_log s @ replicate n c"
  by (simp add: state_after_def)

lemma invocations_state_after: "invocations s (state_after sys c n s) = n"
  by (simp add: invocations_def state_after_def)

lemma retry_loop_Completed:
  assumes "is_Completed (outcome sys c 0 (world s))"
  shows "retry_loop sys c num_attempts attempts s =
           Some (Break (captured (outcome sys c 0 (world s))), state_after sys c (Suc 0) s)"
proof -
  from assms obtain out where "outcome sys c 0 (world s) = Completed out"
    by (cases "outcome sys c 0 (world s)") auto
  then show ?thesis
    by (subst retry_loop.simps) (simp add: check_output_eq)
qed

lemma retry_loop_last_attempt:
  assumes "\<not> is_Completed (outcome sys c 0 (world s))" and "attempts + 1 = num_attempts"
  shows "retry_loop sys c num_attempts attempts s =
           Some (Return (captured (outcome sys c 0 (world s))), state_after sys c (Suc 0) s)"
proof -
  from assms(1) obtain out where "outcome sys c 0 (world s) = CalledProcessError out"
    by (cases "outcome sys c 0 (world s)") auto
  with assms(2) show ?thesis
    by (subst retry_loop.simps) (simp add: check_output_eq)
qed

lemma retry_loop_retry:
  assumes "\<not> is_Completed (outcome sys c 0 (world s))" and "attempts + 1 \<noteq> num_attempts"
  shows "retry_loop sys c num_attempts attempts s =
           retry_loop sys c num_attempts (attempts + 1) (state_after sys c (Suc 0) s)"
proof -
  from assms(1) obtain out where "outcome sys c 0 (world s) = CalledProcessError out"
    by (cases "outcome sys c 0 (world s)") auto
  with assms(2) show ?thesis
    by (subst retry_loop.simps) (simp add: check_output_eq)
qed

lemma retry_loop_skip:
  assumes "\<forall>j<n. \<not> is_Completed (outcome sys c j (world s))"
    and "\<forall>j<n. attempts + 1 + int j \<noteq> num_attempts"
  shows "retry_loop sys c num_attempts attempts s =
           retry_loop sys c num_attempts (attempts + int n) (state_after sys c n s)"
  using assms
proof (induction n arbitrary: attempts s)
  case 0
  then show ?case by (simp add: state_after_0)
next
  case (Suc n)
  let ?s1 = "state_after sys c (Suc 0) s"
  from Suc.prems(1) have f0: "\<not> is_Completed (outcome sys c 0 (world s))" by blast
  from Suc.prems(2) have a0: "attempts + 1 \<noteq> num_attempts" by force
  have w1: "world ?s1 = snd (subprocess sys c (world s))"
    by (simp add: world_state_after world_after_Suc world_after_0)
  have f: "\<forall>j<n. \<not> is_Completed (outcome sys c j (world ?s1))"
    using Suc.prems(1) by (auto simp: w1 outcome_Suc [symmetric])
  have a: "\<forall>j<n. (attempts + 1) + 1 + int j \<noteq> num_attempts"
  proof (intro allI impI)
    fix j assume "j < n"
    then have "attempts + 1 + int (Suc j) \<noteq> num_attempts" using Suc.prems(2) by (metis Suc_less_eq)
    then show "(attempts + 1) + 1 + int j \<noteq> num_attempts" by simp
  qed
  have "retry_loop sys c num_attempts attempts s =
          retry_loop sys c num_attempts (attempts + 1) ?s1"
    by (rule retry_loop_retry [OF f0 a0])
  also have "\<dots> = retry_loop sys c num_attempts (attempts + 1 + int n) (state_after sys c n ?s1)"
    using Suc.IH [of "state_after sys c (Suc 0) s" "attempts + 1"] f a by blast
  finally show ?case by (simp add: state_after_Suc [where n = n] add.assoc)
qed


lemma state_after_Suc_right:
  "state_after sys c (Suc 0) (state_after sys c n s) = state_after sys c (Suc n) s"
  by (simp add: state_after_def world_after_def replicate_append_same)

lemma outcome_state_after:
  "outcome sys c 0 (world (state_after sys c n s)) = outcome sys c n (world s)"
  by (simp add: outcome_def world_after_def state_after_def)

lemma retry_loop_first_success:
  assumes fails: "\<forall>j<n. \<not> is_Completed (outcome sys c j (world s))"
    and ok: "is_Completed (outcome sys c n (world s))"
    and reached: "\<forall>j<n. 1 + int j \<noteq> num_attempts"
  shows "retry_loop sys c num_attempts 0 s =
           Some (Break (captured (outcome sys c n (world s))), state_after sys c (Suc n) s)"
proof -
  have "retry_loop sys c num_attempts 0 s =
          retry_loop sys c num_attempts (0 + int n) (state_after sys c n s)"
    using fails reached by (intro retry_loop_skip) simp_all
  also have "\<dots> = Some (Break (captured (outcome sys c 0 (world (state_after sys c n s)))),
                        state_after sys c (Suc 0) (state_after sys c n s))"
    using ok by (intro retry_loop_Completed) (simp add: outcome_state_after)
  finally show ?thesis
    by (simp add: outcome_state_after state_after_Suc_right)
qed

lemma retry_loop_all_fail:
  assumes fails: "\<forall>j\<le>n. \<not> is_Completed (outcome sys c j (world s))"
  shows "retry_loop sys c (int (Suc n)) 0 s =
           Some (Return (captured (outcome sys c n (world s))), state_after sys c (Suc n) s)"
proof -
  have "retry_loop sys c (int (Suc n)) 0 s =
          retry_loop sys c (int (Suc n)) (0 + int n) (state_after sys c n s)"
    using fails by (intro retry_loop_skip) simp_all
  also have "\<dots> = Some (Return (captured (outcome sys c 0 (world (state_after sys c n s)))),
                        state_after sys c (Suc 0) (state_after sys c n s))"
    using fails by (intro retry_loop_last_attempt) (simp_all add: outcome_state_after)
  finally show ?thesis
    by (simp add: outcome_state_after state_after_Suc_right)
qed

lemma retry_loop_total:
  assumes "1 \<le> num_attempts"
  shows "\<exists>e n. int (Suc n) \<le> num_attempts \<and>
           retry_loop sys c num_attempts 0 s = Some (e, state_after sys c (Suc n) s)"
proof -
  define m where "m = nat num_attempts - 1"
  with assms have num: "num_attempts = int (Suc m)" by simp
  show ?thesis
  proof (cases "\<exists>j\<le>m. is_Completed (outcome sys c j (world s))")
    case True
    define k where "k = (LEAST j. is_Completed (outcome sys c j (world s)))"
    from True obtain j where j: "j \<le> m" "is_Completed (outcome sys c j (world s))" by blast
    have ok: "is_Completed (outcome sys c k (world s))"
      unfolding k_def using j(2) by (rule LeastI)
    have "k \<le> j" unfolding k_def using j(2) by (rule Least_le)
    with j(1) have km: "k \<le> m" by simp
    have fails: "\<forall>i<k. \<not> is_Completed (outcome sys c i (world s))"
      unfolding k_def using not_less_Least by blast
    have reached: "\<forall>i<k. 1 + int i \<noteq> num_attempts"
      using km num by auto
    from retry_loop_first_success [OF fails ok reached] km num show ?thesis
      by (intro exI [of _ "Break (captured (outcome sys c k (world s)))"] exI [of _ k]) simp
  next
    case False
    then have "\<forall>j\<le>m. \<not> is_Completed (outcome sys c j (world s))" by blast
    from retry_loop_all_fail [OF this] num show ?thesis
      by (intro exI [of _ "Return (captured (outcome sys c m (world s)))"] exI [of _ m]) simp
  qed
qed

lemma retry_loop_returns:
  assumes "retry_loop sys c num_attempts attempts s = Some (e, s')"
  shows "\<exists>n. s' = state_after sys c (Suc n) s \<and>
           (case e of Break out \<Rightarrow> outcome sys c n (world s) = Completed out
                    | Return out \<Rightarrow> outcome sys c n (world s) = CalledProcessError out)"
proof -
  let ?Q = "\<lambda>sys c (num_attempts :: int) (attempts :: int) s y.
     \<exists>n. snd y = state_after sys c (Suc n) s \<and>
       (case fst y of Break out \<Rightarrow> outcome sys c n (world s) = Completed out
                    | Return out \<Rightarrow> outcome sys c n (world s) = CalledProcessError out)"
  have "?Q sys c num_attempts attempts s (e, s')"
  proof (rule retry_loop.raw_induct [where P = ?Q, OF _ assms])
    fix loop :: "'a system \<Rightarrow> string \<Rightarrow> int \<Rightarrow> int \<Rightarrow> 'a state \<Rightarrow> (loop_exit \<times> 'a state) option"
    fix sys c num_attempts attempts s y
    assume IH: "\<And>sys c num_attempts attempts s y.
                  loop sys c num_attempts attempts s = Some y \<Longrightarrow> ?Q sys c num_attempts attempts s y"
      and body: "(case check_output sys c s of
                    (Completed out, s') \<Rightarrow> Some (Break out, s')
                  | (CalledProcessError out, s') \<Rightarrow>
                      if attempts + 1 = num_attempts then Some (Return out, s')
                      else loop sys c num_attempts (attempts + 1) s') = Some y"
    show "?Q sys c num_attempts attempts s y"
    proof (cases "outcome sys c 0 (world s)")
      case (Completed out)
      with body have "y = (Break out, state_after sys c (Suc 0) s)"
        by (simp add: check_output_eq)
      with Completed show ?thesis by (intro exI [of _ 0]) simp
    next
      case (CalledProcessError out)
      show ?thesis
      proof (cases "attempts + 1 = num_attempts")
        case True
        with body CalledProcessError have "y = (Return out, state_after sys c (Suc 0) s)"
          by (simp add: check_output_eq)
        with CalledProcessError show ?thesis by (intro exI [of _ 0]) simp
      next
        case False
        with body CalledProcessError
        have "loop sys c num_attempts (attempts + 1) (state_after sys c (Suc 0) s) = Some y"
          by (simp add: check_output_eq)
        from IH [OF this] obtain n where
          n: "snd y = state_after sys c (Suc n) (state_after sys c (Suc 0) s)"
            "(case fst y of
                Break out \<Rightarrow> outcome sys c n (world (state_after sys c (Suc 0) s)) = Completed out
              | Return out \<Rightarrow> outcome sys c n (world (state_after sys c (Suc 0) s)) = CalledProcessError out)"
          by blast
        have w: "world (state_after sys c (Suc 0) s) = snd (subprocess sys c (world s))"
          by (simp add: state_after_def world_after_def)
        from n show ?thesis
          by (intro exI [of _ "Suc n"])
             (simp add: w outcome_Suc state_after_Suc [where n = "Suc n"] split: loop_exit.splits)
      qed
    qed
  qed
  then show ?thesis by simp
qed

lemma retry_loop_diverges:
  assumes fails: "\<forall>w. \<not> is_Completed (fst (subprocess sys c w))"
    and "num_attempts \<le> 0" and "0 \<le> attempts"
  shows "retry_loop sys c num_attempts attempts s = None"
proof (cases "retry_loop sys c num_attempts attempts s")
  case None
  then show ?thesis .
next
  case (Some y)
  let ?Q = "\<lambda>sys c (num_attempts :: int) (attempts :: int) (s :: 'a state) (y :: loop_exit \<times> 'a state).
     (\<forall>w. \<not> is_Completed (fst (subprocess sys c w))) \<longrightarrow> num_attempts \<le> 0 \<longrightarrow> 0 \<le> attempts
        \<longrightarrow> False"
  have "?Q sys c num_attempts attempts s y"
  proof (rule retry_loop.raw_induct [where P = ?Q, OF _ Some])
    fix loop :: "'a system \<Rightarrow> string \<Rightarrow> int \<Rightarrow> int \<Rightarrow> 'a state \<Rightarrow> (loop_exit \<times> 'a state) option"
    fix sys c num_attempts attempts s y
    assume IH: "\<And>sys c num_attempts attempts s y.
                  loop sys c num_attempts attempts s = Some y \<Longrightarrow> ?Q sys c num_attempts attempts s y"
      and body: "(case check_output sys c s of
                    (Completed out, s') \<Rightarrow> Some (Break out, s')
                  | (CalledProcessError out, s') \<Rightarrow>
                      if attempts + 1 = num_attempts then Some (Return out, s')
                      else loop sys c num_attempts (attempts + 1) s') = Some y"
    show "?Q sys c num_attempts attempts s y"
    proof (intro impI)
      assume f: "\<forall>w. \<not> is_Completed (fst (subprocess sys c w))"
        and n: "num_attempts \<le> 0" and a: "0 \<le> attempts"
      from f have "\<not> is_Completed (outcome sys c 0 (world s))"
        by (simp add: outcome_def)
      then obtain out where out: "outcome sys c 0 (world s) = CalledProcessError out"
        by (cases "outcome sys c 0 (world s)") auto
      from n a have "attempts + 1 \<noteq> num_attempts" by simp
      with body out
      have "loop sys c num_attempts (attempts + 1) (state_after sys c (Suc 0) s) = Some y"
        by (simp add: check_output_eq)
      from IH [OF this] f n a show False by simp
    qed
  qed
  with assms show ?thesis by simp
qed

subsection \<open>Evaluating strings\<close>

lemma str_nat_digit: "n < 10 \<Longrightarrow> str_nat n = [digit n]"
  by (simp add: str_nat.simps)

lemma str_nat_more: "10 \<le> n \<Longrightarrow> str_nat n = str_nat (n div 10) @ [digit (n mod 10)]"
  by (subst str_nat.simps) simp

lemmas str_eval = str_int_def str_nat_digit str_nat_more digit_def

lemmas command_eval = clip_command_def build_command_def command_head_def adjust_window_def
  default_url_base_def strip_def lstrip_def rstrip_def isspace_def str_eval

subsection \<open>download_clip in terms of the loop\<close>

lemma download_clip_loop:
  "download_clip sys video_identifier output_filename start_time end_time num_attempts url_base s =
     (case retry_loop sys
             (clip_command video_identifier output_filename start_time end_time url_base)
             num_attempts 0 s of
        None \<Rightarrow> None
      | Some (Return out, s') \<Rightarrow> Some ((False, Bytes out), s')
      | Some (Break out, s') \<Rightarrow>
          Some ((os_path_exists sys output_filename (world s'), Str ''Downloaded''), s'))"
  by (simp add: download_clip_def clip_command_def split: prod.splits)

lemma download_clip_first_success:
  assumes "command = clip_command video_identifier output_filename start_time end_time url_base"
    and "\<forall>j<n. \<not> is_Completed (outcome sys command j (world s))"
    and "is_Completed (outcome sys command n (world s))"
    and "\<forall>j<n. 1 + int j \<noteq> num_attempts"
  shows "download_clip sys video_identifier output_filename start_time end_time num_attempts
           url_base s =
         Some ((os_path_exists sys output_filename (world_after sys command (Suc n) (world s)),
                Str ''Downloaded''),
               state_after sys command (Suc n) s)"
  using retry_loop_first_success [OF assms(2,3,4)] assms(1)
  by (simp add: download_clip_loop world_state_after)

lemma download_clip_total:
  assumes "1 \<le> num_attempts"
  shows "\<exists>r n. int (Suc n) \<le> num_attempts \<and>
           download_clip sys video_identifier output_filename start_time end_time num_attempts
             url_base s =
           Some (r, state_after sys
                      (clip_command video_identifier output_filename start_time end_time url_base)
                      (Suc n) s)"
proof -
  let ?c = "clip_command video_identifier output_filename start_time end_time url_base"
  from retry_loop_total [OF assms, of sys ?c s] obtain e n where
    n: "int (Suc n) \<le> num_attempts"
    and loop: "retry_loop sys ?c num_attempts 0 s = Some (e, state_after sys ?c (Suc n) s)"
    by blast
  show ?thesis
  proof (cases e)
    case (Break out)
    with loop n show ?thesis by (auto simp: download_clip_loop)
  next
    case (Return out)
    with loop n show ?thesis by (auto simp: download_clip_loop)
  qed
qed

subsection \<open>The scripted machine\<close>

lemma scripted_world_after:
  "n + j \<le> fails \<Longrightarrow> world_after (scripted fails printed written) c j (n, files) = (n + j, files)"
proof (induction j arbitrary: n)
  case 0
  then show ?case by (simp add: world_after_0)
next
  case (Suc j)
  from Suc.prems have "Suc n + j \<le> fails" and "n < fails" by simp_all
  with Suc.IH [of "Suc n"] show ?case
    by (simp add: world_after_Suc scripted_def)
qed

lemma scripted_outcome_fail:
  "j < fails \<Longrightarrow>
     outcome (scripted fails printed written) c j (0, files) =
       CalledProcessError (''ERROR: attempt '' @ str_nat (Suc j))"
  using scripted_world_after [of 0 j fails printed written c files]
  by (simp add: outcome_def) (simp add: scripted_def)

lemma scripted_outcome_ok:
  "outcome (scripted fails printed written) c fails (0, files) = Completed printed"
  using scripted_world_after [of 0 fails fails printed written c files]
  by (simp add: outcome_def) (simp add: scripted_def)

lemma scripted_world_after_ok:
  "world_after (scripted fails printed written) c (Suc fails) (0, files) =
     (Suc fails, written @ files)"
  using scripted_world_after [of 0 fails fails printed written c files]
  by (simp add: world_after_def) (simp add: scripted_def)

lemma download_clip_diverges:
  assumes "\<forall>w. \<not> is_Completed
             (fst (subprocess sys
                    (clip_command video_identifier output_filename start_time end_time url_base) w))"
    and "num_attempts \<le> 0"
  shows "download_clip sys video_identifier output_filename start_time end_time num_attempts
           url_base s = None"
  using retry_loop_diverges [OF assms(1,2), of 0 s] by (simp add: download_clip_loop)

subsection \<open>Stripping the command\<close>

lemma rstrip_append_spaces:
  assumes "\<forall>x\<in>set b. isspace x"
  shows "rstrip (a @ b) = rstrip a"
proof -
  have "dropWhile isspace (rev b @ rev a) = dropWhile isspace (rev a)"
    using assms by (intro dropWhile_append2) simp
  then show ?thesis by (simp add: rstrip_def)
qed

lemma rstrip_append_kept:
  assumes "rstrip b \<noteq> []"
  shows "rstrip (a @ b) = a @ rstrip b"
proof -
  from assms have "dropWhile isspace (rev b) \<noteq> []" by (simp add: rstrip_def)
  then obtain x where "x \<in> set (rev b)" "\<not> isspace x"
    by auto
  then have "dropWhile isspace (rev b @ rev a) = dropWhile isspace (rev b) @ rev a"
    by (rule dropWhile_append1)
  then show ?thesis by (simp add: rstrip_def)
qed

lemma rstrip_unchanged:
  assumes "s \<noteq> []" and "\<not> isspace (last s)"
  shows "rstrip s = s"
proof -
  from assms have "\<not> isspace (hd (rev s))" by (simp add: hd_rev)
  then have "dropWhile isspace (rev s) = rev s" by (simp add: dropWhile_eq_self_iff)
  then show ?thesis by (simp add: rstrip_def)
qed

lemma rstrip_empty_iff: "rstrip s = [] \<longleftrightarrow> (\<forall>x\<in>set s. isspace x)"
  by (simp add: rstrip_def)

lemma lstrip_command_head:
  "lstrip (''\<newline>        '' @ command_head output_filename start_time end_time @ rest) =
     command_head output_filename start_time end_time @ rest"
  by (simp add: lstrip_def command_head_def isspace_def)

lemma build_command_rstrip:
  assumes "rstrip (url_base @ video_identifier) \<noteq> []"
  shows "build_command video_identifier output_filename start_time end_time url_base =
           command_head output_filename start_time end_time @ rstrip (url_base @ video_identifier)"
proof -
  let ?a = "''\<newline>        '' @ command_head output_filename start_time end_time"
  have sp: "\<forall>x\<in>set ''\<newline>    ''. isspace x" by (simp add: isspace_def)
  have "rstrip (?a @ (url_base @ video_identifier) @ ''\<newline>    '') =
          rstrip (?a @ (url_base @ video_identifier))"
    using rstrip_append_spaces [OF sp, of "?a @ (url_base @ video_identifier)"] by simp
  also have "\<dots> = ?a @ rstrip (url_base @ video_identifier)"
    by (rule rstrip_append_kept [OF assms])
  finally have "rstrip (?a @ (url_base @ video_identifier) @ ''\<newline>    '') =
                  ?a @ rstrip (url_base @ video_identifier)" .
  then have "build_command video_identifier output_filename start_time end_time url_base =
          lstrip (''\<newline>        '' @ command_head output_filename start_time end_time
                  @ rstrip (url_base @ video_identifier))"
    by (simp add: build_command_def strip_def)
  then show ?thesis by (simp only: lstrip_command_head)
qed

lemma rstrip_default_url_base: "rstrip (default_url_base @ video_identifier) \<noteq> []"
  by (simp add: rstrip_empty_iff default_url_base_def isspace_def)

lemma download_clip_shell_log:
  assumes "download_clip sys video_identifier output_filename start_time end_time num_attempts
             url_base s = Some (r, s')"
  shows "\<exists>n. shell_log s' = shell_log s @
           replicate (Suc n)
             (clip_command video_identifier output_filename start_time end_time url_base)"
proof -
  let ?c = "clip_command video_identifier output_filename start_time end_time url_base"
  from assms obtain e where "retry_loop sys ?c num_attempts 0 s = Some (e, s')"
    by (auto simp: download_clip_loop split: option.splits loop_exit.splits)
  from retry_loop_returns [OF this] obtain n where "s' = state_after sys ?c (Suc n) s"
    by blast
  then show ?thesis by (auto simp: shell_log_state_after)
qed

subsection \<open>The driver, by cases on the destination file\<close>

lemma download_clip_changes_log:
  assumes "download_clip sys video_identifier output_filename start_time end_time num_attempts
             url_base s = Some (r, s')"
  shows "s' \<noteq> s"
  using download_clip_shell_log [OF assms] by auto

lemma process_existing:
  assumes "os_path_exists sys (joinpath (ytid ex @ ''.wav'')) (world s)"
  shows "process sys joinpath ex s =
           Some (ex\<lparr>audio := Some (joinpath (ytid ex @ ''.wav'')),
                    download_status := Some True\<rparr>, s)"
  using assms by (simp add: process_def)

lemma process_missing:
  assumes "\<not> os_path_exists sys (joinpath (ytid ex @ ''.wav'')) (world s)"
  shows "\<exists>status s'. process sys joinpath ex s =
           Some (ex\<lparr>audio := Some (joinpath (ytid ex @ ''.wav'')),
                    download_status := Some status\<rparr>, s') \<and> s' \<noteq> s"
proof -
  let ?p = "joinpath (ytid ex @ ''.wav'')"
  have "(1::int) \<le> 5" by simp
  from download_clip_total [OF this, of sys "ytid ex" ?p "start_s ex" "end_s ex" default_url_base s]
  obtain r s' where
    d: "download_clip sys (ytid ex) ?p (start_s ex) (end_s ex) 5 default_url_base s = Some (r, s')"
    by blast
  from download_clip_changes_log [OF d] have "s' \<noteq> s" .
  with d assms show ?thesis
    by (cases r) (auto simp: process_def)
qed

subsection \<open>Window adjustment\<close>

text \<open>
  C1: when \<open>start_time > 15\<close> the adjusted window is
  \<open>(start_time - 15, end_time + 15)\<close>, and when \<open>start_time \<le> 15\<close> it is
  \<open>(start_time, end_time + 30)\<close>.
\<close>

theorem adjust_window_exact:
  "(start_time > 15 \<longrightarrow> adjust_window start_time end_time = (start_time - 15, end_time + 15))
   \<and> (start_time \<le> 15 \<longrightarrow> adjust_window start_time end_time = (start_time, end_time + 30))"
  by (simp add: adjust_window_def)

theorem adjust_window_exact_witness:
  "adjust_window 30 40 = (15, 55) \<and> adjust_window 5 12 = (5, 42)"
  using adjust_window_exact [of 30 40] adjust_window_exact [of 5 12] by simp

text \<open>
  C9: in both branches the adjusted window is 30 seconds wider than the requested
  one, \<open>adjusted_end - adjusted_start = (end_time - start_time) + 30\<close>, and a
  \<open>start_time\<close> that is not negative gives an adjusted start that is not negative.
\<close>

theorem adjust_window_width:
  "snd (adjust_window start_time end_time) - fst (adjust_window start_time end_time) =
     (end_time - start_time) + 30
   \<and> (0 \<le> start_time \<longrightarrow> 0 \<le> fst (adjust_window start_time end_time))"
  by (simp add: adjust_window_def)

theorem adjust_window_width_witness:
  "snd (adjust_window 30 40) - fst (adjust_window 30 40) = (40 - 30) + 30
   \<and> 0 \<le> fst (adjust_window 30 40)
   \<and> snd (adjust_window 5 12) - fst (adjust_window 5 12) = (12 - 5) + 30
   \<and> 0 \<le> fst (adjust_window 5 12)"
  using adjust_window_width [of 30 40] adjust_window_width [of 5 12] by simp

subsection \<open>The retry loop and the existence check\<close>

text \<open>
  Attempts are numbered from 1: \<open>outcome sys command j w\<close> is the result of attempt
  \<open>j + 1\<close>.

  C2: for every \<open>num_attempts \<ge> 1\<close>, if the external tool fails on each of the first
  \<open>num_attempts\<close> invocations, \<open>download_clip\<close> returns \<open>False\<close> with the captured
  output of the last failed attempt, the one numbered \<open>num_attempts\<close>, as its message,
  after exactly \<open>num_attempts\<close> invocations.
\<close>

theorem fetch_all_attempts_fail:
  assumes "1 \<le> num_attempts"
    and "command = clip_command video_identifier output_filename start_time end_time url_base"
    and "\<forall>j < nat num_attempts. \<not> is_Completed (outcome sys command j (world s))"
  shows "download_clip sys video_identifier output_filename start_time end_time num_attempts
           url_base s =
         Some ((False, Bytes (captured (outcome sys command (nat num_attempts - 1) (world s)))),
               state_after sys command (nat num_attempts) s)
         \<and> invocations s (state_after sys command (nat num_attempts) s) = nat num_attempts"
proof -
  define m where "m = nat num_attempts - 1"
  with assms(1) have num: "num_attempts = int (Suc m)" and m: "nat num_attempts = Suc m"
    by simp_all
  from assms(3) have "\<forall>j\<le>m. \<not> is_Completed (outcome sys command j (world s))"
    by (simp add: m less_Suc_eq_le)
  from retry_loop_all_fail [OF this]
  have "retry_loop sys command num_attempts 0 s =
          Some (Return (captured (outcome sys command m (world s))),
                state_after sys command (Suc m) s)"
    by (simp add: num)
  then show ?thesis
    by (simp add: download_clip_loop assms(2) [symmetric] m invocations_state_after)
qed

theorem fetch_all_attempts_fail_witness:
  "download_clip (scripted 5 [] []) ''xyz'' ''music_data/xyz.wav'' 5 12 5 default_url_base (boot []) =
     Some ((False, Bytes ''ERROR: attempt 5''),
           \<lparr>world = (5, []),
            shell_log = replicate 5
              ''yt-dlp --quiet --no-warnings -x --audio-format wav -f bestaudio -o \"music_data/xyz.wav\" --download-sections \"*5-42\" https://www.youtube.com/watch?v=xyz''\<rparr>)"
proof -
  let ?c = "clip_command ''xyz'' ''music_data/xyz.wav'' 5 12 default_url_base"
  have c: "?c = ''yt-dlp --quiet --no-warnings -x --audio-format wav -f bestaudio -o \"music_data/xyz.wav\" --download-sections \"*5-42\" https://www.youtube.com/watch?v=xyz''"
    by (simp add: command_eval)
  have f: "\<forall>j < nat 5. \<not> is_Completed (outcome (scripted 5 [] []) ?c j (world (boot [])))"
    by (simp add: boot_def scripted_outcome_fail)
  have w: "world_after (scripted 5 [] []) c 5 (0, []) = (5, [])" for c
    using scripted_world_after [of 0 5 5] by simp
  have o: "outcome (scripted 5 [] []) c 4 (0, []) = CalledProcessError ''ERROR: attempt 5''" for c
    using scripted_outcome_fail [of 4 5] by (simp add: str_eval)
  from fetch_all_attempts_fail [of 5 ?c "''xyz''" "''music_data/xyz.wav''" 5 12 default_url_base
      "scripted 5 [] []" "boot []", OF _ refl f]
  show ?thesis
    by (simp add: state_after_def boot_def w o c)
qed


text \<open>
  C3: if attempts 1 to \<open>n\<close> fail, attempt \<open>n + 1\<close> succeeds, \<open>n + 1 \<le> num_attempts\<close>
  and the destination file exists afterwards, \<open>download_clip\<close> returns
  \<open>(True, 'Downloaded')\<close> after exactly \<open>n + 1\<close> invocations.
\<close>

theorem fetch_success_on_attempt:
  assumes "int (Suc n) \<le> num_attempts"
    and "command = clip_command video_identifier output_filename start_time end_time url_base"
    and "\<forall>j<n. \<not> is_Completed (outcome sys command j (world s))"
    and "is_Completed (outcome sys command n (world s))"
    and "os_path_exists sys output_filename (world_after sys command (Suc n) (world s))"
  shows "download_clip sys video_identifier output_filename start_time end_time num_attempts
           url_base s =
         Some ((True, Str ''Downloaded''), state_after sys command (Suc n) s)
         \<and> invocations s (state_after sys command (Suc n) s) = Suc n"
proof -
  from assms(1) have "\<forall>j<n. 1 + int j \<noteq> num_attempts" by auto
  from download_clip_first_success [OF assms(2,3,4) this] assms(5)
  show ?thesis by (simp add: invocations_state_after)
qed

theorem fetch_success_on_attempt_witness:
  "download_clip (scripted 2 [] [''music_data/abc123.wav'']) ''abc123'' ''music_data/abc123.wav''
     30 40 5 default_url_base (boot []) =
     Some ((True, Str ''Downloaded''),
           \<lparr>world = (3, [''music_data/abc123.wav'']),
            shell_log = replicate 3
              ''yt-dlp --quiet --no-warnings -x --audio-format wav -f bestaudio -o \"music_data/abc123.wav\" --download-sections \"*15-55\" https://www.youtube.com/watch?v=abc123''\<rparr>)"
proof -
  let ?sys = "scripted 2 [] [''music_data/abc123.wav'']"
  let ?c = "clip_command ''abc123'' ''music_data/abc123.wav'' 30 40 default_url_base"
  have c: "?c = ''yt-dlp --quiet --no-warnings -x --audio-format wav -f bestaudio -o \"music_data/abc123.wav\" --download-sections \"*15-55\" https://www.youtube.com/watch?v=abc123''"
    by (simp add: command_eval)
  have f: "\<forall>j<2. \<not> is_Completed (outcome ?sys ?c j (world (boot [])))"
    by (simp add: boot_def scripted_outcome_fail)
  have k: "is_Completed (outcome ?sys ?c 2 (world (boot [])))"
    by (simp add: boot_def scripted_outcome_ok)
  have w: "world_after ?sys c 3 (0, []) = (3, [''music_data/abc123.wav''])" for c
    using scripted_world_after_ok [of 2 "[]" "[''music_data/abc123.wav'']" c "[]"] by simp
  have e: "os_path_exists ?sys ''music_data/abc123.wav'' (world_after ?sys ?c (Suc 2) (world (boot [])))"
    by (simp add: boot_def w) (simp add: scripted_def)
  from fetch_success_on_attempt [of 2 5 ?c "''abc123''" "''music_data/abc123.wav''" 30 40
      default_url_base ?sys "boot []", OF _ refl f k e]
  show ?thesis
    by (simp add: state_after_def boot_def w c)
qed

text \<open>
  C4: if the external tool reports success on an attempt that the loop reaches
  (attempt \<open>n + 1\<close> after \<open>n\<close> failures, with \<open>n + 1 \<le> num_attempts\<close>, or with a
  \<open>num_attempts\<close> below 1, which never stops the loop) but the destination file
  does not exist afterwards, \<open>download_clip\<close> returns \<open>False\<close> as its status.
\<close>

theorem fetch_success_without_file:
  assumes "command = clip_command video_identifier output_filename start_time end_time url_base"
    and "\<forall>j<n. \<not> is_Completed (outcome sys command j (world s))"
    and "is_Completed (outcome sys command n (world s))"
    and "int (Suc n) \<le> num_attempts \<or> num_attempts \<le> 0"
    and "\<not> os_path_exists sys output_filename (world_after sys command (Suc n) (world s))"
  shows "\<exists>message s'.
           download_clip sys video_identifier output_filename start_time end_time num_attempts
             url_base s = Some ((False, message), s')"
proof -
  from assms(4) have "\<forall>j<n. 1 + int j \<noteq> num_attempts" by auto
  from download_clip_first_success [OF assms(1,2,3) this] assms(5)
  show ?thesis by simp
qed

theorem fetch_success_without_file_witness:
  "\<exists>message s'.
     download_clip (scripted 3 ''[download] 100%'' []) ''abc123'' ''music_data/abc123.wav''
       30 40 5 default_url_base (boot []) = Some ((False, message), s')"
proof -
  let ?sys = "scripted 3 ''[download] 100%'' []"
  let ?c = "clip_command ''abc123'' ''music_data/abc123.wav'' 30 40 default_url_base"
  have f: "\<forall>j<3. \<not> is_Completed (outcome ?sys ?c j (world (boot [])))"
    by (simp add: boot_def scripted_outcome_fail)
  have k: "is_Completed (outcome ?sys ?c 3 (world (boot [])))"
    by (simp add: boot_def scripted_outcome_ok)
  have w: "world_after ?sys c 4 (0, []) = (4, [])" for c
    using scripted_world_after_ok [of 3 "''[download] 100%''" "[]" c "[]"] by simp
  have e: "\<not> os_path_exists ?sys ''music_data/abc123.wav''
               (world_after ?sys ?c (Suc 3) (world (boot [])))"
    by (simp add: boot_def w) (simp add: scripted_def)
  from fetch_success_without_file [of ?c "''abc123''" "''music_data/abc123.wav''" 30 40
      default_url_base 3 ?sys "boot []" 5, OF refl f k _ e]
  show ?thesis by simp
qed

text \<open>
  C5 says that after a successful invocation a missing destination file is
  reported with the captured output as the message, \<open>'Downloaded'\<close> going only
  with the status \<open>True\<close>. Lines 86 and 87 return the text \<open>'Downloaded'\<close> whatever
  the status: here the tool succeeds at once, printing \<open>[download] 100%\<close>, writes
  no file, and the result is \<open>(False, 'Downloaded')\<close>.
\<close>

theorem fetch_downloaded_without_file_counterexample:
  "outcome (scripted 0 ''[download] 100%'' [])
     (clip_command ''abc123'' ''music_data/abc123.wav'' 30 40 default_url_base) 0 (0, []) =
     Completed ''[download] 100%''
   \<and> download_clip (scripted 0 ''[download] 100%'' []) ''abc123'' ''music_data/abc123.wav''
       30 40 5 default_url_base (boot []) =
     Some ((False, Str ''Downloaded''),
           \<lparr>world = (1, []),
            shell_log =
              [''yt-dlp --quiet --no-warnings -x --audio-format wav -f bestaudio -o \"music_data/abc123.wav\" --download-sections \"*15-55\" https://www.youtube.com/watch?v=abc123'']\<rparr>)"
proof -
  let ?sys = "scripted 0 ''[download] 100%'' []"
  let ?c = "clip_command ''abc123'' ''music_data/abc123.wav'' 30 40 default_url_base"
  have c: "?c = ''yt-dlp --quiet --no-warnings -x --audio-format wav -f bestaudio -o \"music_data/abc123.wav\" --download-sections \"*15-55\" https://www.youtube.com/watch?v=abc123''"
    by (simp add: command_eval)
  have k: "outcome ?sys c 0 (0, []) = Completed ''[download] 100%''" for c
    by (rule scripted_outcome_ok)
  have w: "world_after ?sys c (Suc 0) (0, []) = (Suc 0, [])" for c
    using scripted_world_after_ok [of 0 "''[download] 100%''" "[]" c "[]"] by simp
  have "download_clip ?sys ''abc123'' ''music_data/abc123.wav'' 30 40 5 default_url_base (boot []) =
          Some ((os_path_exists ?sys ''music_data/abc123.wav''
                   (world_after ?sys ?c (Suc 0) (world (boot []))), Str ''Downloaded''),
                state_after ?sys ?c (Suc 0) (boot []))"
    by (rule download_clip_first_success [OF refl]) (simp_all add: boot_def k)
  moreover have "\<not> os_path_exists ?sys ''music_data/abc123.wav''
                     (world_after ?sys ?c (Suc 0) (world (boot [])))"
    by (simp add: boot_def w) (simp add: scripted_def)
  ultimately show ?thesis
    by (simp add: k state_after_def boot_def w c)
qed

text \<open>
  C5, as the code has it: after a successful invocation that the loop reaches
  (attempt \<open>n + 1\<close> after \<open>n\<close> failures), \<open>download_clip\<close> returns the pair of
  \<^verbatim>\<open>os.path.exists(output_filename)\<close>, read after that invocation, and the text
  \<open>'Downloaded'\<close>: \<open>(True, 'Downloaded')\<close> when the file exists and
  \<open>(False, 'Downloaded')\<close> when it does not.
\<close>

theorem fetch_after_success:
  assumes "command = clip_command video_identifier output_filename start_time end_time url_base"
    and "\<forall>j<n. \<not> is_Completed (outcome sys command j (world s))"
    and "is_Completed (outcome sys command n (world s))"
    and "int (Suc n) \<le> num_attempts \<or> num_attempts \<le> 0"
  shows "download_clip sys video_identifier output_filename start_time end_time num_attempts
           url_base s =
         Some ((os_path_exists sys output_filename (world_after sys command (Suc n) (world s)),
                Str ''Downloaded''),
               state_after sys command (Suc n) s)"
proof -
  from assms(4) have "\<forall>j<n. 1 + int j \<noteq> num_attempts" by auto
  with assms(1,2,3) show ?thesis by (rule download_clip_first_success)
qed

theorem fetch_after_success_witness:
  "download_clip (scripted 0 [] [''music_data/abc123.wav'']) ''abc123'' ''music_data/abc123.wav''
     30 40 5 default_url_base (boot []) =
     Some ((True, Str ''Downloaded''),
           \<lparr>world = (1, [''music_data/abc123.wav'']),
            shell_log =
              [''yt-dlp --quiet --no-warnings -x --audio-format wav -f bestaudio -o \"music_data/abc123.wav\" --download-sections \"*15-55\" https://www.youtube.com/watch?v=abc123'']\<rparr>)"
proof -
  let ?sys = "scripted 0 [] [''music_data/abc123.wav'']"
  let ?c = "clip_command ''abc123'' ''music_data/abc123.wav'' 30 40 default_url_base"
  have c: "?c = ''yt-dlp --quiet --no-warnings -x --audio-format wav -f bestaudio -o \"music_data/abc123.wav\" --download-sections \"*15-55\" https://www.youtube.com/watch?v=abc123''"
    by (simp add: command_eval)
  have f: "\<forall>j<0. \<not> is_Completed (outcome ?sys ?c j (world (boot [])))"
    by simp
  have k: "is_Completed (outcome ?sys ?c 0 (world (boot [])))"
    by (simp add: boot_def scripted_outcome_ok)
  have w: "world_after ?sys c (Suc 0) (0, []) = (Suc 0, [''music_data/abc123.wav''])" for c
    using scripted_world_after_ok [of 0 "[]" "[''music_data/abc123.wav'']" c "[]"] by simp
  have e: "os_path_exists ?sys ''music_data/abc123.wav'' (Suc 0, [''music_data/abc123.wav''])"
    by (simp add: scripted_def)
  from fetch_after_success [of ?c "''abc123''" "''music_data/abc123.wav''" 30 40
      default_url_base 0 ?sys "boot []" 5, OF refl f k]
  show ?thesis
    by (simp add: state_after_def boot_def w e c)
qed

text \<open>
  C6 says that for every \<open>num_attempts\<close> the loop ends within \<open>num_attempts\<close>
  invocations. The loop invokes the tool before it looks at \<open>num_attempts\<close>: with
  \<open>num_attempts = 0\<close> and a tool that succeeds at once there is one invocation, more
  than zero. (With a tool that always fails the loop then never ends:
  \<open>download_clip_diverges\<close>.)
\<close>

theorem fetch_zero_attempts_counterexample:
  "download_clip (scripted 0 [] [''music_data/abc123.wav'']) ''abc123'' ''music_data/abc123.wav''
     30 40 0 default_url_base (boot []) =
     Some ((True, Str ''Downloaded''),
           \<lparr>world = (1, [''music_data/abc123.wav'']),
            shell_log =
              [''yt-dlp --quiet --no-warnings -x --audio-format wav -f bestaudio -o \"music_data/abc123.wav\" --download-sections \"*15-55\" https://www.youtube.com/watch?v=abc123'']\<rparr>)
   \<and> \<not> int (invocations (boot [])
          \<lparr>world = (1, [''music_data/abc123.wav'']),
           shell_log =
             [''yt-dlp --quiet --no-warnings -x --audio-format wav -f bestaudio -o \"music_data/abc123.wav\" --download-sections \"*15-55\" https://www.youtube.com/watch?v=abc123'']\<rparr>)
        \<le> 0"
proof -
  let ?sys = "scripted 0 [] [''music_data/abc123.wav'']"
  let ?c = "clip_command ''abc123'' ''music_data/abc123.wav'' 30 40 default_url_base"
  have c: "?c = ''yt-dlp --quiet --no-warnings -x --audio-format wav -f bestaudio -o \"music_data/abc123.wav\" --download-sections \"*15-55\" https://www.youtube.com/watch?v=abc123''"
    by (simp add: command_eval)
  have k: "outcome ?sys c 0 (0, []) = Completed []" for c
    by (rule scripted_outcome_ok)
  have w: "world_after ?sys c (Suc 0) (0, []) = (Suc 0, [''music_data/abc123.wav''])" for c
    using scripted_world_after_ok [of 0 "[]" "[''music_data/abc123.wav'']" c "[]"] by simp
  have e: "os_path_exists ?sys ''music_data/abc123.wav'' (Suc 0, [''music_data/abc123.wav''])"
    by (simp add: scripted_def)
  have "download_clip ?sys ''abc123'' ''music_data/abc123.wav'' 30 40 0 default_url_base (boot []) =
          Some ((os_path_exists ?sys ''music_data/abc123.wav''
                   (world_after ?sys ?c (Suc 0) (world (boot []))), Str ''Downloaded''),
                state_after ?sys ?c (Suc 0) (boot []))"
    by (rule download_clip_first_success [OF refl]) (simp_all add: boot_def k)
  then show ?thesis
    by (simp add: state_after_def boot_def w e c invocations_def)
qed

text \<open>
  C6, as the code has it: for every \<open>num_attempts \<ge> 1\<close> and every behaviour of the
  external tool, \<open>download_clip\<close> returns, after at least one and at most
  \<open>num_attempts\<close> invocations.
\<close>

theorem fetch_terminates:
  assumes "1 \<le> num_attempts"
  shows "\<exists>r s'. download_clip sys video_identifier output_filename start_time end_time
                   num_attempts url_base s = Some (r, s')
           \<and> 1 \<le> invocations s s' \<and> int (invocations s s') \<le> num_attempts"
proof -
  from download_clip_total [OF assms] obtain r n where
    "int (Suc n) \<le> num_attempts"
    "download_clip sys video_identifier output_filename start_time end_time num_attempts
       url_base s =
     Some (r, state_after sys
                (clip_command video_identifier output_filename start_time end_time url_base)
                (Suc n) s)"
    by blast
  then show ?thesis
    by (intro exI [of _ r] exI [of _ "state_after sys
          (clip_command video_identifier output_filename start_time end_time url_base) (Suc n) s"])
       (simp add: invocations_state_after)
qed

theorem fetch_terminates_witness:
  "\<exists>r s'. download_clip (scripted 7 [] []) ''xyz'' ''music_data/xyz.wav'' 5 12 5
             default_url_base (boot []) = Some (r, s')
     \<and> 1 \<le> invocations (boot []) s' \<and> int (invocations (boot []) s') \<le> 5"
  using fetch_terminates [of 5 "scripted 7 [] []" "''xyz''" "''music_data/xyz.wav''" 5 12
      default_url_base "boot []"]
  by simp

subsection \<open>The identifier in the command\<close>

text \<open>
  C7 says that for every identifier the command handed to the shell holds the
  identifier verbatim, right after the URL base. The f-string does insert it
  unescaped and unquoted, but \<^verbatim>\<open>.strip()\<close> then works on the whole string, whose
  end is the identifier: for the identifier \<open>abc123\<close> followed by a space the
  command ends in \<open>abc123\<close>, and the URL base followed by that identifier occurs
  nowhere in it.
\<close>

theorem identifier_trailing_space_counterexample:
  "build_command ''abc123 '' ''music_data/abc123.wav'' 15 55 default_url_base =
     ''yt-dlp --quiet --no-warnings -x --audio-format wav -f bestaudio -o \"music_data/abc123.wav\" --download-sections \"*15-55\" https://www.youtube.com/watch?v=abc123''
   \<and> \<not> sublist (default_url_base @ ''abc123 '')
         (build_command ''abc123 '' ''music_data/abc123.wav'' 15 55 default_url_base)"
proof -
  have c: "build_command ''abc123 '' ''music_data/abc123.wav'' 15 55 default_url_base =
     ''yt-dlp --quiet --no-warnings -x --audio-format wav -f bestaudio -o \"music_data/abc123.wav\" --download-sections \"*15-55\" https://www.youtube.com/watch?v=abc123''"
    by (simp add: command_eval)
  show ?thesis
    unfolding c by (simp add: default_url_base_def sublist_code(3))
qed

text \<open>
  C7, as the code has it: the command is the fixed head followed by the URL base
  and the identifier, unescaped and unquoted, with the whitespace at the very end
  removed; so for every identifier that does not end in whitespace the command
  ends with the URL base immediately followed by the identifier verbatim. (The
  hypothesis says that the URL base and the identifier are not both blank; the
  default URL base makes it true for every identifier:
  \<open>rstrip_default_url_base\<close>.)
\<close>

theorem identifier_verbatim:
  assumes "rstrip (url_base @ video_identifier) \<noteq> []"
  shows "build_command video_identifier output_filename start_time end_time url_base =
           command_head output_filename start_time end_time @ rstrip (url_base @ video_identifier)
         \<and> (\<not> isspace (last (url_base @ video_identifier)) \<longrightarrow>
              build_command video_identifier output_filename start_time end_time url_base =
                command_head output_filename start_time end_time @ url_base @ video_identifier)"
proof -
  from assms have ne: "url_base @ video_identifier \<noteq> []"
    by (auto simp: rstrip_def)
  show ?thesis
    using build_command_rstrip [OF assms] rstrip_unchanged [OF ne] by simp
qed

theorem identifier_verbatim_witness:
  "build_command ''abc; id'' ''music_data/abc.wav'' 15 55 default_url_base =
     ''yt-dlp --quiet --no-warnings -x --audio-format wav -f bestaudio -o \"music_data/abc.wav\" --download-sections \"*15-55\" https://www.youtube.com/watch?v=abc; id''"
proof -
  have r: "rstrip (default_url_base @ ''abc; id'') \<noteq> []"
    by (simp add: rstrip_def default_url_base_def isspace_def)
  have l: "\<not> isspace (last (default_url_base @ ''abc; id''))"
    by (simp add: isspace_def)
  from identifier_verbatim [OF r, of "''music_data/abc.wav''" 15 55] l
  have "build_command ''abc; id'' ''music_data/abc.wav'' 15 55 default_url_base =
          command_head ''music_data/abc.wav'' 15 55 @ default_url_base @ ''abc; id''"
    by blast
  then show ?thesis
    by (simp add: command_head_def default_url_base_def str_eval)
qed

subsection \<open>The per-row driver\<close>

text \<open>
  C8: for a row whose destination file exists before processing, the driver
  returns with the state as it was, so no command was handed to the shell and
  \<open>download_clip\<close> was not run (a run of \<open>download_clip\<close> always adds to the log:
  \<open>download_clip_changes_log\<close>); and for every row, whether or not a download
  took place, the driver returns a row that holds the audio path and a boolean
  download status.
\<close>

theorem process_skips_and_records:
  "(os_path_exists sys (joinpath (ytid ex @ ''.wav'')) (world s) \<longrightarrow>
      (\<exists>ex'. process sys joinpath ex s = Some (ex', s)))
   \<and> (\<exists>ex' s' status. process sys joinpath ex s = Some (ex', s')
          \<and> audio ex' = Some (joinpath (ytid ex @ ''.wav''))
          \<and> download_status ex' = Some status)"
proof (cases "os_path_exists sys (joinpath (ytid ex @ ''.wav'')) (world s)")
  case True
  with process_existing [of sys joinpath ex s] show ?thesis by auto
next
  case False
  with process_missing [of sys joinpath ex s] obtain status s' where
    "process sys joinpath ex s =
       Some (ex\<lparr>audio := Some (joinpath (ytid ex @ ''.wav'')),
                download_status := Some status\<rparr>, s')"
    by blast
  with False show ?thesis by simp
qed

theorem process_skips_and_records_witness:
  "(\<exists>ex'. process (scripted 0 [] []) music_data
            \<lparr>ytid = ''abc123'', start_s = 30, end_s = 40, audio = None, download_status = None\<rparr>
            (boot [''music_data/abc123.wav'']) =
          Some (ex', boot [''music_data/abc123.wav'']))
   \<and> (\<exists>ex' s' status. process (scripted 0 [] []) music_data
            \<lparr>ytid = ''abc123'', start_s = 30, end_s = 40, audio = None, download_status = None\<rparr>
            (boot [''music_data/abc123.wav'']) = Some (ex', s')
          \<and> audio ex' = Some ''music_data/abc123.wav''
          \<and> download_status ex' = Some status)"
proof -
  let ?ex = "\<lparr>ytid = ''abc123'', start_s = 30, end_s = 40, audio = None, download_status = None\<rparr>"
  have e: "os_path_exists (scripted 0 [] []) (music_data (ytid ?ex @ ''.wav''))
             (world (boot [''music_data/abc123.wav'']))"
    by (simp add: scripted_def music_data_def boot_def)
  have p: "music_data (ytid ?ex @ ''.wav'') = ''music_data/abc123.wav''"
    by (simp add: music_data_def)
  from process_skips_and_records [of "scripted 0 [] []" music_data ?ex
      "boot [''music_data/abc123.wav'']"] e
  show ?thesis unfolding p by blast
qed

text \<open>
  C10: for every row whose destination file exists when the driver processes it,
  whatever the world otherwise is, the recorded \<open>download_status\<close> is \<open>True\<close> and
  the state is unchanged: nothing was invoked and the file was not read.
\<close>

theorem process_existing_status_true:
  assumes "os_path_exists sys (joinpath (ytid ex @ ''.wav'')) (world s)"
  shows "\<exists>ex'. process sys joinpath ex s = Some (ex', s) \<and> download_status ex' = Some True"
  using assms by (simp add: process_def)

theorem process_existing_status_true_witness:
  "\<exists>ex'. process (scripted 9 [] []) music_data
           \<lparr>ytid = ''xyz'', start_s = 5, end_s = 12, audio = None, download_status = None\<rparr>
           (boot [''music_data/xyz.wav'']) =
         Some (ex', boot [''music_data/xyz.wav''])
     \<and> download_status ex' = Some True"
proof -
  let ?ex = "\<lparr>ytid = ''xyz'', start_s = 5, end_s = 12, audio = None, download_status = None\<rparr>"
  have e: "os_path_exists (scripted 9 [] []) (music_data (ytid ?ex @ ''.wav''))
             (world (boot [''music_data/xyz.wav'']))"
    by (simp add: scripted_def music_data_def boot_def)
  from process_existing_status_true [of "scripted 9 [] []" music_data ?ex
      "boot [''music_data/xyz.wav'']"] e
  show ?thesis by blast
qed

end
